theory Spec2Isabelle
  imports Main "HOL-Library.AList"
begin

section \<open>Values of the host language\<close>

text \<open>
  The mailbox of \<^verbatim>\<open>src/ipc.ts\<close> moves JSON text through one file. What
  \<^verbatim>\<open>JSON.parse\<close> hands to the code is a tree of the following shape. A string is a
  list of code units, an object is the list of its own properties in insertion order, and
  a number is an integer (process ids and millisecond time stamps are the only numbers the
  class writes).
\<close>

datatype json =
    JNull
  | JBool bool
  | JNum int
  | JStr string
  | JArr "json list"
  | JObj "(string \<times> json) list"

text \<open>Reading a property that is not there gives \<^verbatim>\<open>undefined\<close>: \<open>None\<close>.\<close>

type_synonym jsval = "json option"

text \<open>A call either throws or returns.\<close>

datatype 'a completion = Thrown | Normal 'a

text \<open>A Number as \<^verbatim>\<open>parseInt\<close> and \<^verbatim>\<open>Date.parse\<close> return it.\<close>

datatype jsnum = NaN | Num int

text \<open>A \<^verbatim>\<open>Date\<close> object holds a time value; the invalid date holds \<open>NaN\<close>.\<close>

datatype date = Date jsnum

text \<open>
  \<^verbatim>\<open>new Date(v)\<close> clips the time value: beyond 8.64e15 ms from the epoch the date is
  invalid.
\<close>

fun new_Date :: "jsnum \<Rightarrow> date" where
  "new_Date NaN = Date NaN"
| "new_Date (Num t) = (if \<bar>t\<bar> \<le> 8640000000000000 then Date (Num t) else Date NaN)"

fun getTime :: "date \<Rightarrow> jsnum" where
  "getTime (Date v) = v"

text \<open>\<^verbatim>\<open>a >= b\<close> on Numbers, with \<open>b\<close> finite: any comparison with \<open>NaN\<close> is false.\<close>

fun js_ge :: "jsnum \<Rightarrow> int \<Rightarrow> bool" where
  "js_ge NaN b = False"
| "js_ge (Num a) b = (b \<le> a)"

text \<open>
  \<^verbatim>\<open>obj.key\<close> for the keys the class reads (\<^verbatim>\<open>pid\<close>, \<^verbatim>\<open>sent\<close>, \<^verbatim>\<open>data\<close>): reading a
  property of \<^verbatim>\<open>null\<close> throws a TypeError, an object gives its own property, and a
  number, boolean, string or array has no property of these names.
\<close>

fun get_prop :: "json \<Rightarrow> string \<Rightarrow> jsval completion" where
  "get_prop JNull k = Thrown"
| "get_prop (JObj kvs) k = Normal (map_of kvs k)"
| "get_prop v k = Normal None"

text \<open>\<^verbatim>\<open>!v\<close>: the falsy values are undefined, null, false, 0 and the empty string.\<close>

fun falsy :: "jsval \<Rightarrow> bool" where
  "falsy None = True"
| "falsy (Some JNull) = True"
| "falsy (Some (JBool b)) = (\<not> b)"
| "falsy (Some (JNum n)) = (n = 0)"
| "falsy (Some (JStr s)) = (s = [])"
| "falsy (Some (JArr xs)) = False"
| "falsy (Some (JObj kvs)) = False"

text \<open>
  The values a \<^verbatim>\<open>for (... of v)\<close> loop visits: the elements of an array, the characters
  of a string; anything else (undefined included) is not iterable and the loop throws.
\<close>

fun iterate :: "jsval \<Rightarrow> json list completion" where
  "iterate (Some (JArr xs)) = Normal xs"
| "iterate (Some (JStr s)) = Normal (map (\<lambda>c. JStr [c]) s)"
| "iterate v = Thrown"

text \<open>
  What \<^verbatim>\<open>readFile\<close> resolves to is a byte buffer (the code hands it to
  \<^verbatim>\<open>TextDecoder.decode\<close>). A buffer is an object, and every object is truthy, the
  buffer of an empty file too.
\<close>

definition truthy_buffer :: "string \<Rightarrow> bool" where
  "truthy_buffer b = True"

section \<open>The platform\<close>

text \<open>
  The built-in functions and imported libraries the class calls. Their behaviour is a
  parameter of the model: the theorems below hold for every platform, or name what they
  need of it. \<open>parseInt\<close> and \<open>Date_parse\<close> take the value as the code passes it
  (they convert it to a string themselves, which can throw for an object).
\<close>

record platform =
  parseInt :: "jsval \<Rightarrow> jsnum completion"
  Date_parse :: "jsval \<Rightarrow> jsnum completion"
  JSON_parse :: "string \<Rightarrow> json completion"
  JSON_stringify :: "json \<Rightarrow> string"
  toISOString :: "int \<Rightarrow> string"
  path_join :: "string \<Rightarrow> string \<Rightarrow> string"
  isAbsolute :: "string \<Rightarrow> bool"
  resolve :: "string list \<Rightarrow> string"
  cwd :: string
  dirname :: "string \<Rightarrow> string"
  basename :: "string \<Rightarrow> string"
  is_Deno :: bool

section \<open>The class FileIPC\<close>

text \<open>
  \<^verbatim>\<open>debounce(fn, wait)\<close> of the async library returns a new function that owns one
  time-out slot, empty at first. Calling that function clears its own slot and sets a
  time-out \<open>wait\<close> ms ahead, at which \<open>fn\<close> runs. Two functions made by two calls of
  \<open>debounce\<close> share nothing.
\<close>

record debounced =
  timeout :: "int option"

definition debounce :: debounced where
  "debounce = \<lparr> timeout = None \<rparr>"

definition call_debounced :: "int \<Rightarrow> int \<Rightarrow> debounced \<Rightarrow> debounced" where
  "call_debounced now wait d = (d\<lparr>timeout := None\<rparr>)\<lparr>timeout := Some (now + wait)\<rparr>"

record IpcValidatedMessage =
  pid :: "jsnum option"
  sent :: "date option"
  data :: "string option"
  errors :: "string list"

text \<open>
  The fields of the class, followed by the part of the world it acts on: \<open>fsFile\<close> is the
  content of the file at \<open>filePath\<close> (\<open>None\<close> when there is no such file),
  \<open>debounced_fns\<close> are the debounced functions that have a time-out pending, and
  \<open>console\<close> is what was written to the error console. \<open>watcher\<close> is \<open>None\<close> until
  the watcher is created; \<open>Some open\<close> tells whether it still delivers events.
\<close>

record FileIPC =
  MAX_DATA_LENGTH :: int
  filePath :: string
  dirPath :: string
  fileName :: string
  staleMessageLimitMs :: int
  debounceTimeMs :: int
  messageQueue :: "IpcValidatedMessage list list"
  aborted :: bool
  watcher :: "bool option"
  fsFile :: "string option"
  debounced_fns :: "debounced list"
  console :: "string list"

text \<open>
  toResolvedAbsolutePath of \<^verbatim>\<open>src/path.ts\<close>; an omitted argument is \<open>None\<close>, and
  \<^verbatim>\<open>cwdInput || cwd()\<close> takes the working directory also for the empty string.
\<close>

definition toResolvedAbsolutePath :: "platform \<Rightarrow> string \<Rightarrow> string option \<Rightarrow> string" where
  "toResolvedAbsolutePath P path cwdInput =
     (let cwdToUse = (case cwdInput of None \<Rightarrow> cwd P
                                     | Some c \<Rightarrow> if c = [] then cwd P else c)
      in if \<not> isAbsolute P path then resolve P [cwdToUse, path] else resolve P [path])"

text \<open>
  The constructor; an omitted argument is \<open>None\<close>. \<open>disk\<close> is the content of the
  mailbox file at that moment.
\<close>

definition new_FileIPC :: "platform \<Rightarrow> string \<Rightarrow> int option \<Rightarrow> int option \<Rightarrow> string option \<Rightarrow> FileIPC" where
  "new_FileIPC P path staleArg debounceArg disk =
     \<lparr> MAX_DATA_LENGTH = 1024,
       filePath = toResolvedAbsolutePath P path None,
       dirPath = toResolvedAbsolutePath P (dirname P path) None,
       fileName = basename P path,
       staleMessageLimitMs = (case staleArg of None \<Rightarrow> 30000 | Some v \<Rightarrow> v),
       debounceTimeMs = (case debounceArg of None \<Rightarrow> 100 | Some v \<Rightarrow> v),
       messageQueue = [],
       aborted = False,
       watcher = None,
       fsFile = disk,
       debounced_fns = [],
       console = [] \<rparr>"

definition getFilePath :: "FileIPC \<Rightarrow> string" where
  "getFilePath s = filePath s"

subsection \<open>The file system\<close>

text \<open>
  Every primitive of the file system can fail. One \<open>faults\<close> value says which of them
  fail during one call of a method. Reading or removing a file that does not exist fails
  by itself. A failed write leaves the file as it was. The file is kept as the text its
  bytes decode to, so that \<^verbatim>\<open>new TextDecoder().decode\<close> is the identity.
\<close>

record faults =
  mkdir_fails :: bool
  readFile_fails :: bool
  unlink_fails :: bool
  writeFile_fails :: bool

definition no_faults :: faults where
  "no_faults = \<lparr> mkdir_fails = False, readFile_fails = False, unlink_fails = False,
                 writeFile_fails = False \<rparr>"

definition mkdir :: "faults \<Rightarrow> unit completion" where
  "mkdir F = (if mkdir_fails F then Thrown else Normal ())"

definition exists_file :: "FileIPC \<Rightarrow> bool" where
  "exists_file s = (fsFile s \<noteq> None)"

definition readFile :: "faults \<Rightarrow> FileIPC \<Rightarrow> string completion" where
  "readFile F s =
     (if readFile_fails F then Thrown
      else case fsFile s of None \<Rightarrow> Thrown | Some c \<Rightarrow> Normal c)"

definition unlink :: "faults \<Rightarrow> FileIPC \<Rightarrow> unit completion \<times> FileIPC" where
  "unlink F s =
     (if unlink_fails F \<or> fsFile s = None then (Thrown, s)
      else (Normal (), s\<lparr>fsFile := None\<rparr>))"

definition writeFile :: "faults \<Rightarrow> string \<Rightarrow> FileIPC \<Rightarrow> unit completion \<times> FileIPC" where
  "writeFile F c s =
     (if writeFile_fails F then (Thrown, s)
      else (Normal (), s\<lparr>fsFile := Some c\<rparr>))"

subsection \<open>Validation of one entry: the body of the loop in extractMessages\<close>

definition err_pid :: string where "err_pid = ''Invalid data received: pid''"
definition err_sent :: string where "err_sent = ''Invalid data received: sent''"
definition err_missing :: string where "err_missing = ''Invalid data received: missing''"
definition err_not_string :: string where "err_not_string = ''Invalid data received: not string''"
definition err_too_long :: string where "err_too_long = ''Invalid data received: too long''"
definition err_stale :: string where "err_stale = ''Invalid data received: stale''"

text \<open>\<^verbatim>\<open>try { validatedPid = parseInt(messageObj.pid) } catch { errors.push(...) }\<close>\<close>

definition validatePid :: "platform \<Rightarrow> json \<Rightarrow> jsnum option \<times> string list" where
  "validatePid P messageObj =
     (case get_prop messageObj ''pid'' of
        Thrown \<Rightarrow> (None, [err_pid])
      | Normal v \<Rightarrow>
          (case parseInt P v of
             Thrown \<Rightarrow> (None, [err_pid])
           | Normal n \<Rightarrow> (Some n, [])))"

text \<open>\<^verbatim>\<open>try { validatedSent = new Date(Date.parse(messageObj.sent)) } catch { errors.push(...) }\<close>\<close>

definition validateSent :: "platform \<Rightarrow> json \<Rightarrow> date option \<times> string list" where
  "validateSent P messageObj =
     (case get_prop messageObj ''sent'' of
        Thrown \<Rightarrow> (None, [err_sent])
      | Normal v \<Rightarrow>
          (case Date_parse P v of
             Thrown \<Rightarrow> (None, [err_sent])
           | Normal t \<Rightarrow> (Some (new_Date t), [])))"

text \<open>
  The condition of the staleness gate:
  \<^verbatim>\<open>validatedSent !== null && validatedSent.getTime() >= Date.now() - this.staleMessageLimitMs\<close>
\<close>

definition fresh :: "int \<Rightarrow> FileIPC \<Rightarrow> date option \<Rightarrow> bool" where
  "fresh now s validatedSent =
     (case validatedSent of
        None \<Rightarrow> False
      | Some d \<Rightarrow> js_ge (getTime d) (now - staleMessageLimitMs s))"

text \<open>
  The chain on \<^verbatim>\<open>messageObj.data\<close> inside the gate; it gives the validated data and
  the error it pushes. The property read is not inside a try block of its own.
\<close>

definition validateData :: "FileIPC \<Rightarrow> json \<Rightarrow> (string option \<times> string list) completion" where
  "validateData s messageObj =
     (case get_prop messageObj ''data'' of
        Thrown \<Rightarrow> Thrown
      | Normal v \<Rightarrow>
          if falsy v then Normal (None, [err_missing])
          else (case v of
                  Some (JStr d) \<Rightarrow>
                    if int (length d) \<ge> MAX_DATA_LENGTH s then Normal (None, [err_too_long])
                    else Normal (Some d, [])
                | _ \<Rightarrow> Normal (None, [err_not_string])))"

definition validateMessage :: "platform \<Rightarrow> int \<Rightarrow> FileIPC \<Rightarrow> json \<Rightarrow> IpcValidatedMessage completion" where
  "validateMessage P now s messageObj =
     (let (validatedPid, errors1) = validatePid P messageObj;
          (validatedSent, errors2) = validateSent P messageObj
      in if fresh now s validatedSent then
           (case validateData s messageObj of
              Thrown \<Rightarrow> Thrown
            | Normal (validatedData, errors3) \<Rightarrow>
                Normal \<lparr> pid = validatedPid, sent = validatedSent, data = validatedData,
                         errors = errors1 @ errors2 @ errors3 \<rparr>)
         else
           Normal \<lparr> pid = validatedPid, sent = validatedSent, data = None,
                    errors = errors1 @ errors2 @ [err_stale] \<rparr>)"

text \<open>
  The loop over the entries; an exception that leaves the body leaves the loop. The code
  reads the clock for every entry; the model takes one instant \<open>now\<close> for the loop.
\<close>

fun validateAll :: "platform \<Rightarrow> int \<Rightarrow> FileIPC \<Rightarrow> json list \<Rightarrow> IpcValidatedMessage list completion" where
  "validateAll P now s [] = Normal []"
| "validateAll P now s (messageObj # rest) =
     (case validateMessage P now s messageObj of
        Thrown \<Rightarrow> Thrown
      | Normal m \<Rightarrow>
          (case validateAll P now s rest of
             Thrown \<Rightarrow> Thrown
           | Normal ms \<Rightarrow> Normal (m # ms)))"

subsection \<open>extractMessages\<close>

text \<open>
  The errors a method can reject with: the three \<^verbatim>\<open>new Error(...)\<close> of
  extractMessages (\<^verbatim>\<open>Could not read\<close>, \<^verbatim>\<open>Failed to remove\<close>, \<^verbatim>\<open>Invalid content\<close>) and the
  failure of a file system call that no try block encloses.
\<close>

datatype error = CouldNotRead | FailedToRemove | InvalidContent | FsError

definition empty_mailbox :: json where
  "empty_mailbox = JObj [(''data'', JArr [])]"

text \<open>The inner try block: parse the content, then loop over \<^verbatim>\<open>messages.data\<close>.\<close>

definition parseAndValidate :: "platform \<Rightarrow> int \<Rightarrow> FileIPC \<Rightarrow> string \<Rightarrow> IpcValidatedMessage list completion" where
  "parseAndValidate P now s fileContent =
     (case (if truthy_buffer fileContent then JSON_parse P fileContent
            else Normal empty_mailbox) of
        Thrown \<Rightarrow> Thrown
      | Normal messages \<Rightarrow>
          (case get_prop messages ''data'' of
             Thrown \<Rightarrow> Thrown
           | Normal v \<Rightarrow>
               (case iterate v of
                  Thrown \<Rightarrow> Thrown
                | Normal entries \<Rightarrow> validateAll P now s entries)))"

definition extractMessages :: "platform \<Rightarrow> faults \<Rightarrow> int \<Rightarrow> FileIPC \<Rightarrow> (error + IpcValidatedMessage list) \<times> FileIPC" where
  "extractMessages P F now s =
     (if exists_file s then
        (case readFile F s of
           Thrown \<Rightarrow> (Inl CouldNotRead, s)
         | Normal fileContent \<Rightarrow>
             (case unlink F s of
                (Thrown, s1) \<Rightarrow> (Inl FailedToRemove, s1)
              | (Normal u, s1) \<Rightarrow>
                  (case parseAndValidate P now s1 fileContent of
                     Thrown \<Rightarrow> (Inl InvalidContent, s1)
                   | Normal receivedMessages \<Rightarrow> (Inr receivedMessages, s1))))
      else (Inr [], s))"

subsection \<open>sendData\<close>

text \<open>\<^verbatim>\<open>messages.data.push(entry)\<close>: throws unless \<^verbatim>\<open>messages.data\<close> is an array.\<close>

fun push_data :: "json \<Rightarrow> json \<Rightarrow> json completion" where
  "push_data (JObj kvs) entry =
     (case map_of kvs ''data'' of
        Some (JArr xs) \<Rightarrow> Normal (JObj (AList.update ''data'' (JArr (xs @ [entry])) kvs))
      | _ \<Rightarrow> Thrown)"
| "push_data v entry = Thrown"

definition new_entry :: "platform \<Rightarrow> int \<Rightarrow> int \<Rightarrow> string \<Rightarrow> json" where
  "new_entry P p now d =
     JObj [(''pid'', JNum p), (''data'', JStr d), (''sent'', JStr (toISOString P now))]"

text \<open>
  The outer try block of sendData. \<open>p\<close> is what \<^verbatim>\<open>pid()\<close> returns and \<open>now\<close>
  the instant of \<^verbatim>\<open>new Date()\<close>.
\<close>

definition appendMessage :: "platform \<Rightarrow> faults \<Rightarrow> int \<Rightarrow> int \<Rightarrow> string \<Rightarrow> FileIPC \<Rightarrow> unit completion \<times> FileIPC" where
  "appendMessage P F p now d s =
     (let fileContent = (case readFile F s of Thrown \<Rightarrow> None | Normal c \<Rightarrow> Some c)
      in case (case fileContent of
                 None \<Rightarrow> Normal empty_mailbox
               | Some c \<Rightarrow> if truthy_buffer c then JSON_parse P c else Normal empty_mailbox) of
           Thrown \<Rightarrow> (Thrown, s)
         | Normal messages \<Rightarrow>
             (case push_data messages (new_entry P p now d) of
                Thrown \<Rightarrow> (Thrown, s)
              | Normal messages' \<Rightarrow> writeFile F (JSON_stringify P messages') s))"

definition send_error_log :: string where
  "send_error_log = ''Error sending data, read or write failed.''"

definition sendData :: "platform \<Rightarrow> faults \<Rightarrow> int \<Rightarrow> int \<Rightarrow> string \<Rightarrow> FileIPC \<Rightarrow> (error + unit) \<times> FileIPC" where
  "sendData P F p now d s =
     (case mkdir F of
        Thrown \<Rightarrow> (Inl FsError, s)
      | Normal u \<Rightarrow>
          (case appendMessage P F p now d s of
             (Thrown, s1) \<Rightarrow> (Inr (), s1\<lparr>console := console s1 @ [send_error_log]\<rparr>)
           | (Normal u', s1) \<Rightarrow> (Inr (), s1)))"

subsection \<open>close\<close>

definition close :: "platform \<Rightarrow> faults \<Rightarrow> bool option \<Rightarrow> FileIPC \<Rightarrow> FileIPC" where
  "close P F leaveFile s =
     (let s1 = s\<lparr>aborted := True\<rparr>;
          s2 = (case watcher s1 of
                  None \<Rightarrow> s1
                | Some running \<Rightarrow> if is_Deno P then s1\<lparr>watcher := Some False\<rparr> else s1)
      in if leaveFile = Some True then s2 else snd (unlink F s2))"

subsection \<open>startWatching and receiveData\<close>

record fs_event =
  kind :: string
  paths :: "string list"

text \<open>
  The callback handed to \<open>debounce\<close>: extract, queue a batch that has messages, ignore
  an error.
\<close>

definition onDebounced :: "platform \<Rightarrow> faults \<Rightarrow> int \<Rightarrow> FileIPC \<Rightarrow> FileIPC" where
  "onDebounced P F now s =
     (case extractMessages P F now s of
        (Inl e, s1) \<Rightarrow> s1
      | (Inr messages, s1) \<Rightarrow>
          if length messages > 0 then s1\<lparr>messageQueue := messageQueue s1 @ [messages]\<rparr>
          else s1)"

text \<open>
  startWatching up to the loop: nothing when aborted; else make the directory, extract
  once (no try block here: an error rejects the promise and the watcher is never
  created), queue the batch if it has messages, and create the watcher.
\<close>

definition startWatching :: "platform \<Rightarrow> faults \<Rightarrow> int \<Rightarrow> FileIPC \<Rightarrow> (error + unit) \<times> FileIPC" where
  "startWatching P F now s =
     (if aborted s then (Inr (), s)
      else case mkdir F of
        Thrown \<Rightarrow> (Inl FsError, s)
      | Normal u \<Rightarrow>
          (case extractMessages P F now s of
             (Inl e, s1) \<Rightarrow> (Inl e, s1)
           | (Inr messages, s1) \<Rightarrow>
               (let s2 = (if length messages > 0
                          then s1\<lparr>messageQueue := messageQueue s1 @ [messages]\<rparr> else s1)
                in (Inr (), s2\<lparr>watcher := Some True\<rparr>))))"

text \<open>
  One turn of the \<^verbatim>\<open>for await\<close> loop, for the event the watcher delivers at \<open>now\<close>:
  the loop ends when the handle is aborted; a modification of the mailbox file makes a
  new debounced function and calls it at once; any other event is skipped.
\<close>

definition onEvent :: "platform \<Rightarrow> fs_event \<Rightarrow> int \<Rightarrow> FileIPC \<Rightarrow> FileIPC" where
  "onEvent P event now s =
     (if aborted s then s\<lparr>watcher := Some False\<rparr>
      else if kind event = ''modify'' \<and> path_join P (dirPath s) (fileName s) \<in> set (paths event)
      then s\<lparr>debounced_fns := debounced_fns s @ [call_debounced now (debounceTimeMs s) debounce]\<rparr>
      else s)"

text \<open>
  One turn of the \<^verbatim>\<open>while (!this.aborted)\<close> loop of receiveData: the generator
  returns, yields the oldest batch, or sleeps.
\<close>

datatype 'a turn = Done | Yield 'a | Sleep

definition receiveData :: "FileIPC \<Rightarrow> IpcValidatedMessage list turn \<times> FileIPC" where
  "receiveData s =
     (if aborted s then (Done, s)
      else case messageQueue s of
        [] \<Rightarrow> (Sleep, s)
      | messages # rest \<Rightarrow> (Yield messages, s\<lparr>messageQueue := rest\<rparr>))"

section \<open>The handle in its environment\<close>

text \<open>
  What can happen to a handle, one event at a time. Each asynchronous method runs to its
  end before the next event. \<open>StartWatching\<close> is the call receiveData makes when there is
  no watcher yet; \<open>FsEvent\<close> is an event the watcher delivers; \<open>Elapse F now\<close> lets
  time pass until \<open>now\<close>, so that every time-out due by then fires, at the instant it
  is due; \<open>Receive\<close> is one turn of the consumer's loop; \<open>OtherProcess\<close> is another
  process that rewrites or removes the file.
\<close>

datatype action =
    StartWatching faults int
  | FsEvent fs_event int
  | Elapse faults int
  | Receive
  | Send faults int int string
  | Close faults "bool option"
  | OtherProcess "string option"

text \<open>
  What an observer sees: extractMessages being called at an instant, and a batch being
  yielded to the consumer.
\<close>

datatype observation = Extraction int | Batch "IpcValidatedMessage list"

fun fire_due :: "platform \<Rightarrow> faults \<Rightarrow> int \<Rightarrow> debounced list \<Rightarrow> FileIPC \<Rightarrow> int list \<times> debounced list \<times> FileIPC" where
  "fire_due P F now [] s = ([], [], s)"
| "fire_due P F now (d # ds) s =
     (case timeout d of
        None \<Rightarrow> fire_due P F now ds s
      | Some t \<Rightarrow>
          if t \<le> now then
            (case fire_due P F now ds (onDebounced P F t s) of
               (ts, ds', s') \<Rightarrow> (t # ts, ds', s'))
          else
            (case fire_due P F now ds s of
               (ts, ds', s') \<Rightarrow> (ts, d # ds', s')))"

definition elapse :: "platform \<Rightarrow> faults \<Rightarrow> int \<Rightarrow> FileIPC \<Rightarrow> observation list \<times> FileIPC" where
  "elapse P F now s =
     (case fire_due P F now (debounced_fns s) s of
        (ts, ds, s') \<Rightarrow> (map Extraction ts, s'\<lparr>debounced_fns := ds\<rparr>))"

fun step :: "platform \<Rightarrow> action \<Rightarrow> FileIPC \<Rightarrow> observation list \<times> FileIPC" where
  "step P (StartWatching F now) s =
     (if watcher s = None then
        (if aborted s \<or> mkdir_fails F then [] else [Extraction now],
         snd (startWatching P F now s))
      else ([], s))"
| "step P (FsEvent event now) s =
     (if watcher s = Some True then ([], onEvent P event now s) else ([], s))"
| "step P (Elapse F now) s = elapse P F now s"
| "step P Receive s =
     (case receiveData s of
        (Yield messages, s') \<Rightarrow> ([Batch messages], s')
      | (Done, s') \<Rightarrow> ([], s')
      | (Sleep, s') \<Rightarrow> ([], s'))"
| "step P (Send F p now d) s = ([], snd (sendData P F p now d s))"
| "step P (Close F leaveFile) s = ([], close P F leaveFile s)"
| "step P (OtherProcess c) s = ([], s\<lparr>fsFile := c\<rparr>)"

fun run :: "platform \<Rightarrow> action list \<Rightarrow> FileIPC \<Rightarrow> observation list \<times> FileIPC" where
  "run P [] s = ([], s)"
| "run P (a # as) s =
     (case step P a s of
        (obs1, s1) \<Rightarrow> (case run P as s1 of (obs2, s2) \<Rightarrow> (obs1 @ obs2, s2)))"

section \<open>A reference platform\<close>

text \<open>
  One platform to evaluate the model on concrete inputs. It follows ECMAScript on the
  values of the model: \<^verbatim>\<open>parseInt\<close> and \<^verbatim>\<open>Date.parse\<close> convert their argument
  to a string first (which throws for an object that has a property \<^verbatim>\<open>toString\<close> of
  its own, since no JSON value is callable); \<^verbatim>\<open>Date.parse\<close> reads the one format that
  \<^verbatim>\<open>toISOString\<close> writes and gives \<open>NaN\<close> for any other text; the JSON parser reads
  integers only and runs on fuel, twice the length of the text, and keeps the properties
  of an object in the order of their first occurrence. Paths are POSIX paths and are not
  normalised. No theorem that is stated for every platform depends on it.
\<close>

subsection \<open>Digits\<close>

definition digit_val :: "char \<Rightarrow> nat option" where
  "digit_val c =
     (let n = (of_char c :: nat)
      in if 48 \<le> n \<and> n \<le> 57 then Some (n - 48)
         else if 97 \<le> n \<and> n \<le> 102 then Some (n - 87)
         else if 65 \<le> n \<and> n \<le> 70 then Some (n - 55)
         else None)"

definition is_digit :: "nat \<Rightarrow> char \<Rightarrow> bool" where
  "is_digit radix c = (case digit_val c of None \<Rightarrow> False | Some v \<Rightarrow> v < radix)"

fun digits_val :: "nat \<Rightarrow> nat \<Rightarrow> string \<Rightarrow> nat" where
  "digits_val radix acc [] = acc"
| "digits_val radix acc (c # cs) =
     digits_val radix (acc * radix + (case digit_val c of None \<Rightarrow> 0 | Some v \<Rightarrow> v)) cs"

definition dec :: "string \<Rightarrow> int" where
  "dec s = int (digits_val 10 0 s)"

fun show_nat :: "nat \<Rightarrow> string" where
  "show_nat n =
     (if n < 10 then [char_of (48 + n)]
      else show_nat (n div 10) @ [char_of (48 + n mod 10)])"

declare show_nat.simps [simp del]

definition show_int :: "int \<Rightarrow> string" where
  "show_int i = (if i < 0 then CHR ''-'' # show_nat (nat (- i)) else show_nat (nat i))"

definition pad :: "nat \<Rightarrow> string \<Rightarrow> string" where
  "pad k s = replicate (k - length s) CHR ''0'' @ s"

subsection \<open>parseInt\<close>

fun ToString :: "json \<Rightarrow> string completion"
  and join_elements :: "json list \<Rightarrow> string completion" where
  "ToString JNull = Normal ''null''"
| "ToString (JBool b) = Normal (if b then ''true'' else ''false'')"
| "ToString (JNum n) = Normal (show_int n)"
| "ToString (JStr s) = Normal s"
| "ToString (JArr xs) = join_elements xs"
| "ToString (JObj kvs) =
     (if ''toString'' \<in> set (map fst kvs) then Thrown else Normal ''[object Object]'')"
| "join_elements [] = Normal []"
| "join_elements (x # xs) =
     (case (if x = JNull then Normal [] else ToString x) of
        Thrown \<Rightarrow> Thrown
      | Normal a \<Rightarrow>
          if xs = [] then Normal a
          else (case join_elements xs of
                  Thrown \<Rightarrow> Thrown
                | Normal b \<Rightarrow> Normal (a @ '','' @ b)))"

definition ToString_val :: "jsval \<Rightarrow> string completion" where
  "ToString_val v = (case v of None \<Rightarrow> Normal ''undefined'' | Some j \<Rightarrow> ToString j)"

definition is_space :: "char \<Rightarrow> bool" where
  "is_space c = ((of_char c :: nat) \<in> {9, 10, 11, 12, 13, 32, 160})"

definition parseInt_string :: "string \<Rightarrow> jsnum" where
  "parseInt_string str =
     (let s = dropWhile is_space str;
          neg = (s \<noteq> [] \<and> hd s = CHR ''-'');
          s1 = (if s \<noteq> [] \<and> (hd s = CHR ''-'' \<or> hd s = CHR ''+'') then tl s else s);
          hex = (length s1 \<ge> 2 \<and> hd s1 = CHR ''0'' \<and> (s1 ! 1 = CHR ''x'' \<or> s1 ! 1 = CHR ''X''));
          radix = (if hex then 16 else 10);
          s2 = (if hex then drop 2 s1 else s1);
          z = takeWhile (is_digit radix) s2
      in if z = [] then NaN
         else Num ((if neg then - 1 else 1) * int (digits_val radix 0 z)))"

definition ref_parseInt :: "jsval \<Rightarrow> jsnum completion" where
  "ref_parseInt v = (case ToString_val v of Thrown \<Rightarrow> Thrown | Normal s \<Rightarrow> Normal (parseInt_string s))"

subsection \<open>Dates\<close>

definition is_leap :: "int \<Rightarrow> bool" where
  "is_leap y = (y mod 4 = 0 \<and> (y mod 100 \<noteq> 0 \<or> y mod 400 = 0))"

definition days_in_month :: "int \<Rightarrow> int \<Rightarrow> int" where
  "days_in_month y m =
     (if m = 2 then (if is_leap y then 29 else 28)
      else if m \<in> {4, 6, 9, 11} then 30 else 31)"

definition days_from_civil :: "int \<Rightarrow> int \<Rightarrow> int \<Rightarrow> int" where
  "days_from_civil y m d =
     (let y' = (if m \<le> 2 then y - 1 else y);
          era = y' div 400;
          yoe = y' - era * 400;
          doy = (153 * (if m > 2 then m - 3 else m + 9) + 2) div 5 + d - 1;
          doe = yoe * 365 + yoe div 4 - yoe div 100 + doy
      in era * 146097 + doe - 719468)"

definition civil_from_days :: "int \<Rightarrow> int \<times> int \<times> int" where
  "civil_from_days z0 =
     (let z = z0 + 719468;
          era = z div 146097;
          doe = z - era * 146097;
          yoe = (doe - doe div 1460 + doe div 36524 - doe div 146096) div 365;
          doy = doe - (365 * yoe + yoe div 4 - yoe div 100);
          mp = (5 * doy + 2) div 153;
          d = doy - (153 * mp + 2) div 5 + 1;
          m = (if mp < 10 then mp + 3 else mp - 9);
          y = yoe + era * 400
      in (if m \<le> 2 then y + 1 else y, m, d))"

definition ref_toISOString :: "int \<Rightarrow> string" where
  "ref_toISOString t =
     (case civil_from_days (t div 86400000) of
        (y, m, d) \<Rightarrow>
          (let ms = t mod 86400000;
               two = (\<lambda>i. pad 2 (show_nat (nat i)))
           in (if 0 \<le> y \<and> y \<le> 9999 then pad 4 (show_nat (nat y))
               else (if y < 0 then CHR ''-'' else CHR ''+'') # pad 6 (show_nat (nat \<bar>y\<bar>)))
              @ ''-'' @ two m @ ''-'' @ two d @ ''T''
              @ two (ms div 3600000) @ '':'' @ two (ms div 60000 mod 60) @ '':''
              @ two (ms div 1000 mod 60) @ ''.'' @ pad 3 (show_nat (nat (ms mod 1000))) @ ''Z''))"

definition parse_iso :: "string \<Rightarrow> jsnum" where
  "parse_iso s =
     (if length s = 24
         \<and> list_all (is_digit 10) (take 4 s @ take 2 (drop 5 s) @ take 2 (drop 8 s)
              @ take 2 (drop 11 s) @ take 2 (drop 14 s) @ take 2 (drop 17 s) @ take 3 (drop 20 s))
         \<and> [s ! 4, s ! 7, s ! 10, s ! 13, s ! 16, s ! 19, s ! 23] = ''--T::.Z''
      then
        (let y = dec (take 4 s); m = dec (take 2 (drop 5 s)); d = dec (take 2 (drop 8 s));
             h = dec (take 2 (drop 11 s)); mi = dec (take 2 (drop 14 s));
             sec = dec (take 2 (drop 17 s)); ms = dec (take 3 (drop 20 s))
         in if 1 \<le> m \<and> m \<le> 12 \<and> 1 \<le> d \<and> d \<le> days_in_month y m
               \<and> (h \<le> 23 \<and> mi \<le> 59 \<and> sec \<le> 59 \<or> h = 24 \<and> mi = 0 \<and> sec = 0 \<and> ms = 0)
            then Num (days_from_civil y m d * 86400000 + h * 3600000 + mi * 60000 + sec * 1000 + ms)
            else NaN)
      else NaN)"

definition ref_Date_parse :: "jsval \<Rightarrow> jsnum completion" where
  "ref_Date_parse v = (case ToString_val v of Thrown \<Rightarrow> Thrown | Normal s \<Rightarrow> Normal (parse_iso s))"

subsection \<open>JSON text\<close>

definition hex_char :: "nat \<Rightarrow> char" where
  "hex_char n = (if n < 10 then char_of (48 + n) else char_of (87 + n))"

definition quote_char :: "char \<Rightarrow> string" where
  "quote_char c =
     (let n = (of_char c :: nat)
      in if n = 34 then [CHR 0x5C, CHR 0x22]
         else if n = 92 then [CHR 0x5C, CHR 0x5C]
         else if n = 8 then [CHR 0x5C, CHR ''b'']
         else if n = 12 then [CHR 0x5C, CHR ''f'']
         else if n = 10 then [CHR 0x5C, CHR ''n'']
         else if n = 13 then [CHR 0x5C, CHR ''r'']
         else if n = 9 then [CHR 0x5C, CHR ''t'']
         else if n < 32 then [CHR 0x5C, CHR ''u'', CHR ''0'', CHR ''0'', hex_char (n div 16), hex_char (n mod 16)]
         else [c])"

definition quote :: "string \<Rightarrow> string" where
  "quote s = CHR 0x22 # concat (map quote_char s) @ [CHR 0x22]"

fun stringify :: "json \<Rightarrow> string"
  and stringify_elements :: "json list \<Rightarrow> string"
  and stringify_members :: "(string \<times> json) list \<Rightarrow> string" where
  "stringify JNull = ''null''"
| "stringify (JBool b) = (if b then ''true'' else ''false'')"
| "stringify (JNum n) = show_int n"
| "stringify (JStr s) = quote s"
| "stringify (JArr xs) = ''['' @ stringify_elements xs @ '']''"
| "stringify (JObj kvs) = ''{'' @ stringify_members kvs @ ''}''"
| "stringify_elements [] = []"
| "stringify_elements (x # xs) =
     stringify x @ (if xs = [] then [] else '','' @ stringify_elements xs)"
| "stringify_members [] = []"
| "stringify_members (kv # kvs) =
     quote (fst kv) @ '':'' @ stringify (snd kv)
       @ (if kvs = [] then [] else '','' @ stringify_members kvs)"

definition skip_ws :: "string \<Rightarrow> string" where
  "skip_ws cs = dropWhile (\<lambda>c. (of_char c :: nat) \<in> {32, 9, 10, 13}) cs"

definition unescape :: "char \<Rightarrow> char option" where
  "unescape c =
     (if c = CHR 0x22 \<or> c = CHR 0x5C \<or> c = CHR ''/'' then Some c
      else if c = CHR ''b'' then Some (CHR 0x08)
      else if c = CHR ''f'' then Some (CHR 0x0C)
      else if c = CHR ''n'' then Some (CHR 0x0A)
      else if c = CHR ''r'' then Some (CHR 0x0D)
      else if c = CHR ''t'' then Some (CHR 0x09)
      else None)"

fun parse_chars :: "string \<Rightarrow> (string \<times> string) option" where
  "parse_chars [] = None"
| "parse_chars (c # cs) =
     (if c = CHR 0x22 then Some ([], cs)
      else if c = CHR 0x5C then
        (case cs of
           [] \<Rightarrow> None
         | e # r \<Rightarrow>
             if e = CHR ''u'' then
               (if length r \<ge> 4 \<and> list_all (is_digit 16) (take 4 r) \<and> digits_val 16 0 (take 4 r) < 256
                then (case parse_chars (drop 4 r) of
                        None \<Rightarrow> None
                      | Some (s, rest) \<Rightarrow> Some (char_of (digits_val 16 0 (take 4 r)) # s, rest))
                else None)
             else (case unescape e of
                     None \<Rightarrow> None
                   | Some c' \<Rightarrow>
                       (case parse_chars r of
                          None \<Rightarrow> None
                        | Some (s, rest) \<Rightarrow> Some (c' # s, rest))))
      else if (of_char c :: nat) < 32 then None
      else (case parse_chars cs of
              None \<Rightarrow> None
            | Some (s, rest) \<Rightarrow> Some (c # s, rest)))"

definition parse_number :: "string \<Rightarrow> (json \<times> string) option" where
  "parse_number cs =
     (let neg = (cs \<noteq> [] \<and> hd cs = CHR ''-'');
          cs1 = (if neg then tl cs else cs);
          ds = takeWhile (is_digit 10) cs1;
          rest = dropWhile (is_digit 10) cs1
      in if ds = [] \<or> (length ds > 1 \<and> hd ds = CHR ''0'') then None
         else if rest \<noteq> [] \<and> hd rest \<in> {CHR ''.'', CHR ''e'', CHR ''E''} then None
         else Some (JNum ((if neg then - 1 else 1) * dec ds), rest))"

definition strip_prefix :: "string \<Rightarrow> string \<Rightarrow> string option" where
  "strip_prefix p cs = (if take (length p) cs = p then Some (drop (length p) cs) else None)"

fun parse_value :: "unit list \<Rightarrow> string \<Rightarrow> (json \<times> string) option"
  and parse_elements :: "unit list \<Rightarrow> json list \<Rightarrow> string \<Rightarrow> (json list \<times> string) option"
  and parse_members :: "unit list \<Rightarrow> (string \<times> json) list \<Rightarrow> string \<Rightarrow> ((string \<times> json) list \<times> string) option" where
  "parse_value [] cs = None"
| "parse_value (u # fuel) cs =
     (case skip_ws cs of
        [] \<Rightarrow> None
      | c # r \<Rightarrow>
          if c = CHR ''['' then
            (case skip_ws r of
               [] \<Rightarrow> None
             | c' # r' \<Rightarrow>
                 if c' = CHR '']'' then Some (JArr [], r')
                 else (case parse_elements fuel [] r of
                         None \<Rightarrow> None
                       | Some (xs, rest) \<Rightarrow> Some (JArr xs, rest)))
          else if c = CHR ''{'' then
            (case skip_ws r of
               [] \<Rightarrow> None
             | c' # r' \<Rightarrow>
                 if c' = CHR ''}'' then Some (JObj [], r')
                 else (case parse_members fuel [] r of
                         None \<Rightarrow> None
                       | Some (kvs, rest) \<Rightarrow> Some (JObj kvs, rest)))
          else if c = CHR 0x22 then
            (case parse_chars r of
               None \<Rightarrow> None
             | Some (s, rest) \<Rightarrow> Some (JStr s, rest))
          else (case strip_prefix ''true'' (c # r) of
                  Some rest \<Rightarrow> Some (JBool True, rest)
                | None \<Rightarrow>
                    (case strip_prefix ''false'' (c # r) of
                       Some rest \<Rightarrow> Some (JBool False, rest)
                     | None \<Rightarrow>
                         (case strip_prefix ''null'' (c # r) of
                            Some rest \<Rightarrow> Some (JNull, rest)
                          | None \<Rightarrow> parse_number (c # r)))))"
| "parse_elements [] acc cs = None"
| "parse_elements (u # fuel) acc cs =
     (case parse_value fuel cs of
        None \<Rightarrow> None
      | Some (v, r) \<Rightarrow>
          (case skip_ws r of
             [] \<Rightarrow> None
           | c # r' \<Rightarrow>
               if c = CHR '','' then parse_elements fuel (acc @ [v]) r'
               else if c = CHR '']'' then Some (acc @ [v], r')
               else None))"
| "parse_members [] acc cs = None"
| "parse_members (u # fuel) acc cs =
     (case skip_ws cs of
        [] \<Rightarrow> None
      | q # r0 \<Rightarrow>
          if q \<noteq> CHR 0x22 then None
          else (case parse_chars r0 of
                  None \<Rightarrow> None
                | Some (k, r1) \<Rightarrow>
                    (case skip_ws r1 of
                       [] \<Rightarrow> None
                     | c1 # r2 \<Rightarrow>
                         if c1 \<noteq> CHR '':'' then None
                         else (case parse_value fuel r2 of
                                 None \<Rightarrow> None
                               | Some (v, r3) \<Rightarrow>
                                   (case skip_ws r3 of
                                      [] \<Rightarrow> None
                                    | c # r' \<Rightarrow>
                                        if c = CHR '','' then parse_members fuel (AList.update k v acc) r'
                                        else if c = CHR ''}'' then Some (AList.update k v acc, r')
                                        else None)))))"

definition ref_JSON_parse :: "string \<Rightarrow> json completion" where
  "ref_JSON_parse text =
     (case parse_value (replicate (2 * length text + 2) ()) text of
        None \<Rightarrow> Thrown
      | Some (v, rest) \<Rightarrow> if skip_ws rest = [] then Normal v else Thrown)"

subsection \<open>Paths\<close>

definition ref_resolve :: "string list \<Rightarrow> string" where
  "ref_resolve segs = (case segs of [c, p] \<Rightarrow> c @ ''/'' @ p | [p] \<Rightarrow> p | _ \<Rightarrow> [])"

definition ref_dirname :: "string \<Rightarrow> string" where
  "ref_dirname p =
     (let pre = rev (drop 1 (dropWhile (\<lambda>c. c \<noteq> CHR ''/'') (rev p)))
      in if CHR ''/'' \<notin> set p then ''.'' else if pre = [] then ''/'' else pre)"

definition ref_basename :: "string \<Rightarrow> string" where
  "ref_basename p = rev (takeWhile (\<lambda>c. c \<noteq> CHR ''/'') (rev p))"

definition ref_platform :: platform where
  "ref_platform =
     \<lparr> parseInt = ref_parseInt,
       Date_parse = ref_Date_parse,
       JSON_parse = ref_JSON_parse,
       JSON_stringify = stringify,
       toISOString = ref_toISOString,
       path_join = (\<lambda>d f. d @ ''/'' @ f),
       isAbsolute = (\<lambda>p. p \<noteq> [] \<and> hd p = CHR ''/''),
       resolve = ref_resolve,
       cwd = ''/work'',
       dirname = ref_dirname,
       basename = ref_basename,
       is_Deno = True \<rparr>"

text \<open>A handle on \<^verbatim>\<open>/tmp/box\<close> with the default limits, and no mailbox file yet.\<close>

definition box :: FileIPC where
  "box = new_FileIPC ref_platform ''/tmp/box'' None None None"

text \<open>The text of a mailbox file that holds one message, "hello" from process 123.\<close>

definition one_hello :: string where
  "one_hello = JSON_stringify ref_platform (JObj [(''data'', JArr [new_entry ref_platform 123 1000 ''hello''])])"

text \<open>
  The mailbox object that holds the given entries, the entries that a list of sends
  (process id, instant, data) writes, and those sends as events of the handle.
\<close>

definition mailbox_of :: "json list \<Rightarrow> json" where
  "mailbox_of entries = JObj [(''data'', JArr entries)]"

definition entries_of :: "platform \<Rightarrow> (int \<times> int \<times> string) list \<Rightarrow> json list" where
  "entries_of P sends = map (\<lambda>(p, now, d). new_entry P p now d) sends"

definition send_each :: "(int \<times> int \<times> string) list \<Rightarrow> action list" where
  "send_each sends = map (\<lambda>(p, now, d). Send no_faults p now d) sends"

text \<open>Two sends, ten milliseconds apart.\<close>

definition two_sends :: "(int \<times> int \<times> string) list" where
  "two_sends = [(123, 1000, ''hello''), (124, 1010, ''world'')]"

text \<open>
  A modification of the mailbox file as the watcher reports it, and a run of the handle:
  another process leaves one message, the watcher starts and the consumer takes the
  batch; then another process leaves a mailbox with no message, the watcher sees the
  modification and extracts after the quiet period, and the consumer looks again.
\<close>

definition modify_box :: fs_event where
  "modify_box = \<lparr> kind = ''modify'', paths = [''/tmp/box''] \<rparr>"

definition a_day :: "action list" where
  "a_day =
     [OtherProcess (Some one_hello), StartWatching no_faults 1050, Receive,
      OtherProcess (Some (JSON_stringify ref_platform (mailbox_of []))),
      FsEvent modify_box 2000, Elapse no_faults 3000, Receive]"

section \<open>Validation\<close>

lemmas err_defs = err_pid_def err_sent_def err_missing_def err_not_string_def err_too_long_def err_stale_def

lemma validatePid_cases:
  "validatePid P messageObj = (None, [err_pid]) \<or> (\<exists>n. validatePid P messageObj = (Some n, []))"
  by (auto simp: validatePid_def split: completion.splits)

lemma validateSent_cases:
  "validateSent P messageObj = (None, [err_sent]) \<or> (\<exists>d. validateSent P messageObj = (Some d, []))"
  by (auto simp: validateSent_def split: completion.splits)

lemma validateSent_null: "validateSent P JNull = (None, [err_sent])"
  by (simp add: validateSent_def)

lemma validateData_not_null:
  "messageObj \<noteq> JNull \<Longrightarrow> \<exists>r. validateData s messageObj = Normal r"
  by (cases messageObj) (auto simp: validateData_def split: option.splits json.splits)

lemma validateMessage_never_throws:
  "\<exists>m. validateMessage P now s messageObj = Normal m"
proof (cases "messageObj = JNull")
  case True
  then show ?thesis
    by (simp add: validateMessage_def validateSent_null fresh_def split: prod.splits)
next
  case False
  from validateData_not_null [OF this] obtain r where "validateData s messageObj = Normal r" ..
  then show ?thesis
    by (auto simp: validateMessage_def split: prod.splits)
qed

lemma validateAll_each:
  "\<exists>ms. validateAll P now s entries = Normal ms
        \<and> map Normal ms = map (validateMessage P now s) entries"
proof (induction entries)
  case Nil
  show ?case by simp
next
  case (Cons e entries)
  obtain m where m: "validateMessage P now s e = Normal m"
    using validateMessage_never_throws by blast
  from Cons obtain ms where "validateAll P now s entries = Normal ms"
    and "map Normal ms = map (validateMessage P now s) entries" by blast
  with m show ?case by simp
qed

lemma validateData_cases:
  assumes "validateData s messageObj = Normal (vd, es)"
  shows "(vd = None \<and> es \<in> {[err_missing], [err_not_string], [err_too_long]})
       \<or> (\<exists>d. vd = Some d \<and> es = [])"
  using assms
  by (auto simp: validateData_def split: completion.splits if_splits option.splits json.splits)

lemma pid_error_only_when_thrown:
  assumes "get_prop messageObj ''pid'' = Normal v" and "parseInt P v = Normal n"
    and "validateMessage P now s messageObj = Normal m"
  shows "pid m = Some n \<and> err_pid \<notin> set (errors m)"
  using assms validateSent_cases [of P messageObj]
  by (auto simp: validateMessage_def validatePid_def err_defs
      split: prod.splits completion.splits if_splits dest!: validateData_cases)

lemma sent_error_only_when_thrown:
  assumes "get_prop messageObj ''sent'' = Normal v" and "Date_parse P v = Normal t"
    and "validateMessage P now s messageObj = Normal m"
  shows "sent m = Some (new_Date t) \<and> err_sent \<notin> set (errors m)"
  using assms validatePid_cases [of P messageObj]
  by (auto simp: validateMessage_def validateSent_def err_defs
      split: prod.splits completion.splits if_splits dest!: validateData_cases)

text \<open>
  Claim C2: an entry whose pid cannot be parsed as an integer is validated to a message
  with no pid and the error "invalid pid", and an entry whose sent cannot be parsed as a
  time stamp to a message with no sent and the error "invalid sent".

  The code does not do this. \<^verbatim>\<open>parseInt\<close> and \<^verbatim>\<open>Date.parse\<close> do not throw on
  text they cannot read, they return \<open>NaN\<close>, so the two catch blocks are not entered:
  for the pid \<^verbatim>\<open>"abc"\<close> the message carries the pid \<open>NaN\<close> and no error at all, and
  for the sent \<^verbatim>\<open>"yesterday"\<close> it carries an invalid date and the one error "stale".
  (\<open>pid_error_only_when_thrown\<close> and \<open>sent_error_only_when_thrown\<close> say so for every
  platform.)
\<close>

theorem unparseable_pid_and_sent_are_kept:
  "validateMessage ref_platform 1000 box
      (JObj [(''pid'', JStr ''abc''), (''sent'', JStr ''1970-01-01T00:00:00.000Z''), (''data'', JStr ''hi'')])
    = Normal \<lparr> pid = Some NaN, sent = Some (Date (Num 0)), data = Some ''hi'', errors = [] \<rparr>
   \<and> validateMessage ref_platform 1000 box
      (JObj [(''pid'', JNum 7), (''sent'', JStr ''yesterday''), (''data'', JStr ''hi'')])
    = Normal \<lparr> pid = Some (Num 7), sent = Some (Date NaN), data = None, errors = [err_stale] \<rparr>"
  by code_simp

text \<open>
  Claim C3, as stated: every data string shorter than 1024, sent at T with a well-formed
  pid and sent, validated at an instant between T and T + staleLimit, comes out as the
  data of the message, with no error. The empty string is shorter than 1024, and the code
  reports it as missing (\<^verbatim>\<open>!messageObj.data\<close> holds for it).
\<close>

theorem empty_data_is_reported_missing:
  "validateMessage ref_platform 1000 box (new_entry ref_platform 123 1000 [])
     = Normal \<lparr> pid = Some (Num 123), sent = Some (Date (Num 1000)), data = None,
                errors = [err_missing] \<rparr>"
  by code_simp

text \<open>
  Claim C3, amended: every non-empty data string shorter than MAX_DATA_LENGTH, in an entry
  whose pid parses to a number and whose sent parses to a time value T (within the range
  of a Date), validated at an instant T' with T \<le> T' \<le> T + staleMessageLimitMs, comes out
  as the data of the message, with the parsed pid and sent and no error.
\<close>

theorem fresh_short_data_is_accepted:
  assumes "d \<noteq> []" and "int (length d) < MAX_DATA_LENGTH s"
    and "get_prop messageObj ''data'' = Normal (Some (JStr d))"
    and "get_prop messageObj ''pid'' = Normal v" and "parseInt P v = Normal (Num n)"
    and "get_prop messageObj ''sent'' = Normal w" and "Date_parse P w = Normal (Num T)"
    and "\<bar>T\<bar> \<le> 8640000000000000"
    and "T \<le> T'" and "T' \<le> T + staleMessageLimitMs s"
  shows "validateMessage P T' s messageObj
           = Normal \<lparr> pid = Some (Num n), sent = Some (Date (Num T)), data = Some d, errors = [] \<rparr>"
  using assms
  by (simp add: validateMessage_def validatePid_def validateSent_def validateData_def fresh_def)

theorem fresh_short_data_is_accepted_witness:
  "validateMessage ref_platform 1050 box (new_entry ref_platform 123 1000 ''hello'')
     = Normal \<lparr> pid = Some (Num 123), sent = Some (Date (Num 1000)), data = Some ''hello'',
                errors = [] \<rparr>"
proof -
  have e: "new_entry ref_platform 123 1000 ''hello''
      = JObj [(''pid'', JNum 123), (''data'', JStr ''hello''), (''sent'', JStr ''1970-01-01T00:00:01.000Z'')]"
    by code_simp
  have 1: "''hello'' \<noteq> []" by simp
  have 2: "int (length ''hello'') < MAX_DATA_LENGTH box" by code_simp
  have 3: "get_prop (new_entry ref_platform 123 1000 ''hello'') ''data'' = Normal (Some (JStr ''hello''))"
    by (simp add: e)
  have 4: "get_prop (new_entry ref_platform 123 1000 ''hello'') ''pid'' = Normal (Some (JNum 123))"
    by (simp add: e)
  have 5: "parseInt ref_platform (Some (JNum 123)) = Normal (Num 123)" by code_simp
  have 6: "get_prop (new_entry ref_platform 123 1000 ''hello'') ''sent''
      = Normal (Some (JStr ''1970-01-01T00:00:01.000Z''))"
    by (simp add: e)
  have 7: "Date_parse ref_platform (Some (JStr ''1970-01-01T00:00:01.000Z'')) = Normal (Num 1000)"
    by code_simp
  have 8: "\<bar>1000 :: int\<bar> \<le> 8640000000000000" by simp
  have 9: "(1000 :: int) \<le> 1050" by simp
  have 10: "1050 \<le> 1000 + staleMessageLimitMs box" by code_simp
  show ?thesis
    by (rule fresh_short_data_is_accepted [OF 1 2 3 4 5 6 7 8 9 10])
qed

text \<open>
  Claim C4, as stated: an entry whose data has 1024 characters or more is validated to a
  message with no data and the error "too long", whatever its other fields are. The
  length is looked at only behind the staleness gate: a stale entry with 2000 characters
  of data gets the error "stale" and nothing else.
\<close>

theorem long_stale_data_is_only_stale:
  "validateMessage ref_platform 100000 box
      (JObj [(''pid'', JNum 7), (''sent'', JStr ''1970-01-01T00:00:00.000Z''),
             (''data'', JStr (replicate 2000 CHR ''x''))])
     = Normal \<lparr> pid = Some (Num 7), sent = Some (Date (Num 0)), data = None,
                errors = [err_stale] \<rparr>
   \<and> err_too_long \<notin> set [err_stale]"
  by code_simp

text \<open>
  Claim C4, amended: when MAX_DATA_LENGTH is positive (it is 1024 unless the field has
  been assigned), an entry whose data is a string of MAX_DATA_LENGTH characters or more
  is validated to a message with no data, whatever its other fields are; the error
  "too long" is recorded when the validated sent is within the stale limit, and otherwise
  the error "stale" is recorded and "too long" is not.
\<close>

theorem long_data_is_never_accepted:
  assumes "get_prop messageObj ''data'' = Normal (Some (JStr d))"
    and "MAX_DATA_LENGTH s \<le> int (length d)" and "0 < MAX_DATA_LENGTH s"
  shows "\<exists>m. validateMessage P now s messageObj = Normal m \<and> data m = None
           \<and> (if fresh now s (sent m) then err_too_long \<in> set (errors m)
               else err_stale \<in> set (errors m) \<and> err_too_long \<notin> set (errors m))"
proof -
  from assms have d: "d \<noteq> []" by auto
  obtain vp e1 where p: "validatePid P messageObj = (vp, e1)" by force
  obtain vs e2 where t: "validateSent P messageObj = (vs, e2)" by force
  from p validatePid_cases [of P messageObj] have e1: "set e1 \<subseteq> {err_pid}" by auto
  from t validateSent_cases [of P messageObj] have e2: "set e2 \<subseteq> {err_sent}" by auto
  have vd: "validateData s messageObj = Normal (None, [err_too_long])"
    using assms d by (simp add: validateData_def)
  show ?thesis
    using p t e1 e2 vd by (auto simp: validateMessage_def err_defs)
qed

theorem long_data_is_never_accepted_witness:
  "\<exists>m. validateMessage ref_platform 1050 box (new_entry ref_platform 123 1000 (replicate 2000 CHR ''x''))
          = Normal m \<and> data m = None \<and> err_too_long \<in> set (errors m)"
proof -
  let ?e = "new_entry ref_platform 123 1000 (replicate 2000 CHR ''x'')"
  have 1: "get_prop ?e ''data'' = Normal (Some (JStr (replicate 2000 CHR ''x'')))"
    by (simp add: new_entry_def)
  have 2: "MAX_DATA_LENGTH box \<le> int (length (replicate 2000 CHR ''x''))"
    by (simp add: box_def new_FileIPC_def)
  have 3: "0 < MAX_DATA_LENGTH box" by (simp add: box_def new_FileIPC_def)
  from long_data_is_never_accepted [OF 1 2 3, of ref_platform 1050]
  obtain m where m: "validateMessage ref_platform 1050 box ?e = Normal m" "data m = None"
    and c: "if fresh 1050 box (sent m) then err_too_long \<in> set (errors m)
            else err_stale \<in> set (errors m) \<and> err_too_long \<notin> set (errors m)"
    by blast
  have "sent m = Some (Date (Num 1000))"
  proof -
    have "get_prop ?e ''sent'' = Normal (Some (JStr (toISOString ref_platform 1000)))"
      by (simp add: new_entry_def)
    moreover have "Date_parse ref_platform (Some (JStr (toISOString ref_platform 1000))) = Normal (Num 1000)"
      by code_simp
    ultimately show ?thesis
      using sent_error_only_when_thrown [OF _ _ m(1)] by simp
  qed
  moreover have "fresh 1050 box (Some (Date (Num 1000)))" by code_simp
  ultimately show ?thesis using m c by auto
qed

section \<open>Extraction\<close>

lemma extract_absent_file:
  "fsFile s = None \<Longrightarrow> extractMessages P F now s = (Inr [], s)"
  by (simp add: extractMessages_def exists_file_def)

lemma extract_malformed_content:
  assumes "fsFile s = Some c" and "\<not> readFile_fails F" and "\<not> unlink_fails F"
    and "JSON_parse P c = Thrown"
  shows "extractMessages P F now s = (Inl InvalidContent, s\<lparr>fsFile := None\<rparr>)"
  using assms
  by (simp add: extractMessages_def exists_file_def readFile_def unlink_def
      parseAndValidate_def truthy_buffer_def)

lemma extract_result_cases:
  "extractMessages P F now s = (r, s') \<Longrightarrow> s' = s \<or> s' = s\<lparr>fsFile := None\<rparr>"
  by (auto simp: extractMessages_def unlink_def split: if_splits completion.splits prod.splits)

text \<open>
  Claim C7: when the mailbox file is read, empty content counts as zero entries, content
  that is not well-formed JSON makes the extraction fail with the format error, and when
  there is no file the extraction returns no entries.

  The last two hold (\<open>extract_malformed_content\<close>, \<open>extract_absent_file\<close>). The
  first does not: what readFile returns is a buffer, an object, and
  \<^verbatim>\<open>if (fileContent)\<close> holds for every object, so the branch that would take an empty
  mailbox is never entered. The empty text goes to \<^verbatim>\<open>JSON.parse\<close>, which throws, and
  the extraction fails with "Invalid content", after the file has been removed.
\<close>

theorem empty_file_is_invalid_content:
  "extractMessages ref_platform no_faults 1000 (box\<lparr>fsFile := Some []\<rparr>)
     = (Inl InvalidContent, box\<lparr>fsFile := None\<rparr>)"
proof -
  have "JSON_parse ref_platform [] = Thrown" by code_simp
  then show ?thesis
    by (simp add: extract_malformed_content no_faults_def)
qed

text \<open>
  Claim C8: extraction is destructive. When an extraction returns, the mailbox file no
  longer exists, and an extraction that follows it with no send in between returns no
  entries (so nothing is extracted twice). The file is removed right after it has been
  read, before its content is parsed and validated: when it exists and reading and
  removing succeed, it is gone whatever the content was.
\<close>

theorem extraction_is_destructive:
  "(extractMessages P F now s = (Inr ms, s') \<longrightarrow>
        fsFile s' = None \<and> extractMessages P F' now' s' = (Inr [], s'))
   \<and> (exists_file s \<and> \<not> readFile_fails F \<and> \<not> unlink_fails F \<longrightarrow>
        fsFile (snd (extractMessages P F now s)) = None)"
proof (intro conjI impI)
  assume a: "extractMessages P F now s = (Inr ms, s')"
  then show "fsFile s' = None"
    by (auto simp: extractMessages_def exists_file_def unlink_def
        split: if_splits completion.splits prod.splits)
  then show "extractMessages P F' now' s' = (Inr [], s')"
    by (rule extract_absent_file)
next
  assume "exists_file s \<and> \<not> readFile_fails F \<and> \<not> unlink_fails F"
  then show "fsFile (snd (extractMessages P F now s)) = None"
    by (auto simp: extractMessages_def exists_file_def readFile_def unlink_def
        split: completion.splits)
qed

theorem extraction_is_destructive_witness:
  "extractMessages ref_platform no_faults 1050 (box\<lparr>fsFile := Some one_hello\<rparr>)
     = (Inr [\<lparr> pid = Some (Num 123), sent = Some (Date (Num 1000)), data = Some ''hello'', errors = [] \<rparr>],
        box)
   \<and> fsFile box = None
   \<and> extractMessages ref_platform no_faults 1060 box = (Inr [], box)
   \<and> fsFile (snd (extractMessages ref_platform no_faults 1050 (box\<lparr>fsFile := Some ''{''\<rparr>))) = None"
proof -
  have 1: "extractMessages ref_platform no_faults 1050 (box\<lparr>fsFile := Some one_hello\<rparr>)
     = (Inr [\<lparr> pid = Some (Num 123), sent = Some (Date (Num 1000)), data = Some ''hello'', errors = [] \<rparr>],
        box)"
    by code_simp
  have 2: "exists_file (box\<lparr>fsFile := Some ''{''\<rparr>) \<and> \<not> readFile_fails no_faults \<and> \<not> unlink_fails no_faults"
    by (simp add: exists_file_def no_faults_def)
  from extraction_is_destructive [of ref_platform no_faults 1050 "box\<lparr>fsFile := Some one_hello\<rparr>" _ box no_faults 1060] 1
  have "fsFile box = None \<and> extractMessages ref_platform no_faults 1060 box = (Inr [], box)"
    by blast
  moreover from extraction_is_destructive [of ref_platform no_faults 1050 "box\<lparr>fsFile := Some ''{''\<rparr>"] 2
  have "fsFile (snd (extractMessages ref_platform no_faults 1050 (box\<lparr>fsFile := Some ''{''\<rparr>))) = None"
    by blast
  ultimately show ?thesis using 1 by simp
qed

section \<open>Sending\<close>

lemma push_data_mailbox:
  "push_data (mailbox_of es) e = Normal (mailbox_of (es @ [e]))"
  by (simp add: mailbox_of_def)

lemma empty_mailbox_of: "empty_mailbox = mailbox_of []"
  by (simp add: empty_mailbox_def mailbox_of_def)

lemma sendData_mkdir_fails:
  "mkdir_fails F \<Longrightarrow> sendData P F p now d s = (Inl FsError, s)"
  by (simp add: sendData_def mkdir_def)

lemma sendData_returns:
  "\<not> mkdir_fails F \<Longrightarrow> fst (sendData P F p now d s) = Inr ()"
  by (simp add: sendData_def mkdir_def split: prod.splits completion.splits)

lemma sendData_logs:
  assumes "\<not> mkdir_fails F"
    and "writeFile_fails F \<or> (\<exists>c. readFile F s = Normal c \<and> JSON_parse P c = Thrown)"
  shows "sendData P F p now d s = (Inr (), s\<lparr>console := console s @ [send_error_log]\<rparr>)"
  using assms
  by (auto simp: sendData_def mkdir_def appendMessage_def writeFile_def truthy_buffer_def
      split: completion.splits option.splits)

lemma sendData_unreadable:
  assumes "\<not> mkdir_fails F" and "\<not> writeFile_fails F" and "readFile F s = Thrown"
  shows "sendData P F p now d s
     = (Inr (), s\<lparr>fsFile := Some (JSON_stringify P (mailbox_of [new_entry P p now d]))\<rparr>)"
  using assms
  by (simp add: sendData_def mkdir_def appendMessage_def writeFile_def empty_mailbox_of
      push_data_mailbox)

lemma sendData_appends:
  assumes "\<not> mkdir_fails F" and "\<not> writeFile_fails F" and "readFile F s = Normal c"
    and "JSON_parse P c = Normal (mailbox_of es)"
  shows "sendData P F p now d s
     = (Inr (), s\<lparr>fsFile := Some (JSON_stringify P (mailbox_of (es @ [new_entry P p now d])))\<rparr>)"
  using assms
  by (simp add: sendData_def mkdir_def appendMessage_def writeFile_def truthy_buffer_def
      push_data_mailbox)

text \<open>
  Claim C6, as stated: whatever fails underneath (directory creation, read, parse or
  write), send reports a send failure and never lets the failure reach the caller. The
  call of mkdir stands before the try block: when it fails, sendData rejects.
\<close>

theorem mkdir_failure_rejects_send:
  "sendData ref_platform (no_faults\<lparr>mkdir_fails := True\<rparr>) 123 1000 ''hello'' box = (Inl FsError, box)"
  by (simp add: sendData_mkdir_fails)

text \<open>
  Claim C6, amended: a failure of the directory creation reaches the caller (sendData
  rejects, and nothing else happens). When the directory creation succeeds sendData
  always returns normally; when then the content read cannot be parsed or the write
  fails, the failure is logged on the error console and the file is left as it was; and
  when the read fails, nothing is reported: the mailbox counts as empty and the file is
  written with the new message alone.
\<close>

theorem send_contains_parse_and_write_failures:
  "(mkdir_fails F \<longrightarrow> sendData P F p now d s = (Inl FsError, s))
   \<and> (\<not> mkdir_fails F \<longrightarrow> fst (sendData P F p now d s) = Inr ())
   \<and> (\<not> mkdir_fails F \<and> (writeFile_fails F \<or> (\<exists>c. readFile F s = Normal c \<and> JSON_parse P c = Thrown)) \<longrightarrow>
        sendData P F p now d s = (Inr (), s\<lparr>console := console s @ [send_error_log]\<rparr>))
   \<and> (\<not> mkdir_fails F \<and> \<not> writeFile_fails F \<and> readFile F s = Thrown \<longrightarrow>
        sendData P F p now d s
          = (Inr (), s\<lparr>fsFile := Some (JSON_stringify P (mailbox_of [new_entry P p now d]))\<rparr>))"
proof (intro conjI impI)
  assume "mkdir_fails F"
  then show "sendData P F p now d s = (Inl FsError, s)" by (rule sendData_mkdir_fails)
next
  assume "\<not> mkdir_fails F"
  then show "fst (sendData P F p now d s) = Inr ()" by (rule sendData_returns)
next
  assume "\<not> mkdir_fails F \<and> (writeFile_fails F \<or> (\<exists>c. readFile F s = Normal c \<and> JSON_parse P c = Thrown))"
  then show "sendData P F p now d s = (Inr (), s\<lparr>console := console s @ [send_error_log]\<rparr>)"
    using sendData_logs [of F s P] by simp
next
  assume "\<not> mkdir_fails F \<and> \<not> writeFile_fails F \<and> readFile F s = Thrown"
  then show "sendData P F p now d s
          = (Inr (), s\<lparr>fsFile := Some (JSON_stringify P (mailbox_of [new_entry P p now d]))\<rparr>)"
    by (simp add: sendData_unreadable)
qed

theorem send_contains_parse_and_write_failures_witness:
  "sendData ref_platform (no_faults\<lparr>mkdir_fails := True\<rparr>) 123 1000 ''hello'' (box\<lparr>fsFile := Some ''{''\<rparr>)
      = (Inl FsError, box\<lparr>fsFile := Some ''{''\<rparr>)
   \<and> sendData ref_platform no_faults 123 1000 ''hello'' (box\<lparr>fsFile := Some ''{''\<rparr>)
      = (Inr (), box\<lparr>fsFile := Some ''{'', console := [send_error_log]\<rparr>)
   \<and> sendData ref_platform (no_faults\<lparr>writeFile_fails := True\<rparr>) 123 1000 ''hello'' box
      = (Inr (), box\<lparr>console := [send_error_log]\<rparr>)
   \<and> sendData ref_platform (no_faults\<lparr>readFile_fails := True\<rparr>) 123 1000 ''hello'' (box\<lparr>fsFile := Some ''{''\<rparr>)
      = (Inr (), box\<lparr>fsFile := Some one_hello\<rparr>)"
proof -
  have c: "console box = []" by (simp add: box_def new_FileIPC_def)
  have h: "one_hello = JSON_stringify ref_platform (mailbox_of [new_entry ref_platform 123 1000 ''hello''])"
    by (simp add: one_hello_def mailbox_of_def)
  have p: "JSON_parse ref_platform ''{'' = Thrown" by code_simp
  have 1: "mkdir_fails (no_faults\<lparr>mkdir_fails := True\<rparr>)" by simp
  have 2: "\<not> mkdir_fails no_faults \<and> (writeFile_fails no_faults
      \<or> (\<exists>c. readFile no_faults (box\<lparr>fsFile := Some ''{''\<rparr>) = Normal c \<and> JSON_parse ref_platform c = Thrown))"
    using p by (simp add: no_faults_def readFile_def)
  have 3: "\<not> mkdir_fails (no_faults\<lparr>writeFile_fails := True\<rparr>)
     \<and> (writeFile_fails (no_faults\<lparr>writeFile_fails := True\<rparr>)
       \<or> (\<exists>c. readFile (no_faults\<lparr>writeFile_fails := True\<rparr>) box = Normal c \<and> JSON_parse ref_platform c = Thrown))"
    by (simp add: no_faults_def)
  have 4: "\<not> mkdir_fails (no_faults\<lparr>readFile_fails := True\<rparr>)
     \<and> \<not> writeFile_fails (no_faults\<lparr>readFile_fails := True\<rparr>)
     \<and> readFile (no_faults\<lparr>readFile_fails := True\<rparr>) (box\<lparr>fsFile := Some ''{''\<rparr>) = Thrown"
    by (simp add: no_faults_def readFile_def)
  show ?thesis
    using send_contains_parse_and_write_failures [of "no_faults\<lparr>mkdir_fails := True\<rparr>" ref_platform 123 1000 "''hello''" "box\<lparr>fsFile := Some ''{''\<rparr>"] 1
      send_contains_parse_and_write_failures [of no_faults ref_platform 123 1000 "''hello''" "box\<lparr>fsFile := Some ''{''\<rparr>"] 2
      send_contains_parse_and_write_failures [of "no_faults\<lparr>writeFile_fails := True\<rparr>" ref_platform 123 1000 "''hello''" box] 3
      send_contains_parse_and_write_failures [of "no_faults\<lparr>readFile_fails := True\<rparr>" ref_platform 123 1000 "''hello''" "box\<lparr>fsFile := Some ''{''\<rparr>"] 4
    by (simp add: c h)
qed

lemma close_aborted: "aborted (close P F leaveFile s)"
  by (simp add: close_def unlink_def Let_def split: option.splits)

lemma close_removes_file:
  "leaveFile \<noteq> Some True \<Longrightarrow> \<not> unlink_fails F \<Longrightarrow> fsFile (close P F leaveFile s) = None"
  by (simp add: close_def unlink_def Let_def split: option.splits)

lemma sendData_ignores_aborted:
  "sendData P F p now d (s\<lparr>aborted := b\<rparr>)
     = (fst (sendData P F p now d s), (snd (sendData P F p now d s))\<lparr>aborted := b\<rparr>)"
  by (simp add: sendData_def mkdir_def appendMessage_def readFile_def writeFile_def
      split: completion.splits option.splits)

text \<open>
  Claim C5, as stated: after close, every call of send fails with a closed-handle error
  and does not append the message. sendData has no such check: on the closed handle it
  writes the message to the mailbox file and returns normally.
\<close>

theorem send_after_close_appends:
  "aborted (close ref_platform no_faults None box)
   \<and> sendData ref_platform no_faults 123 1000 ''hello'' (close ref_platform no_faults None box)
      = (Inr (), (close ref_platform no_faults None box)\<lparr>fsFile := Some one_hello\<rparr>)"
  by code_simp

text \<open>
  Claim C5, amended: close sets the aborted flag, and sendData never reads it: on a handle
  whose flag is set it returns what it returns, and does to the file and the console what
  it does, on the same handle with the flag unset. So after a close that removed the file,
  a send whose directory creation and write succeed returns normally and leaves the
  mailbox file holding that message.
\<close>

theorem send_does_not_consult_aborted:
  "aborted (close P F' leaveFile s)
   \<and> sendData P F p now d (s\<lparr>aborted := b\<rparr>)
       = (fst (sendData P F p now d s), (snd (sendData P F p now d s))\<lparr>aborted := b\<rparr>)
   \<and> (\<not> mkdir_fails F \<and> \<not> writeFile_fails F \<and> leaveFile \<noteq> Some True \<and> \<not> unlink_fails F' \<longrightarrow>
        sendData P F p now d (close P F' leaveFile s)
          = (Inr (), (close P F' leaveFile s)
                \<lparr>fsFile := Some (JSON_stringify P (mailbox_of [new_entry P p now d]))\<rparr>))"
proof (intro conjI impI)
  show "aborted (close P F' leaveFile s)" by (rule close_aborted)
  show "sendData P F p now d (s\<lparr>aborted := b\<rparr>)
       = (fst (sendData P F p now d s), (snd (sendData P F p now d s))\<lparr>aborted := b\<rparr>)"
    by (rule sendData_ignores_aborted)
next
  assume a: "\<not> mkdir_fails F \<and> \<not> writeFile_fails F \<and> leaveFile \<noteq> Some True \<and> \<not> unlink_fails F'"
  then have "fsFile (close P F' leaveFile s) = None" by (simp add: close_removes_file)
  then have "readFile F (close P F' leaveFile s) = Thrown" by (simp add: readFile_def)
  with a show "sendData P F p now d (close P F' leaveFile s)
          = (Inr (), (close P F' leaveFile s)
                \<lparr>fsFile := Some (JSON_stringify P (mailbox_of [new_entry P p now d]))\<rparr>)"
    by (simp add: sendData_unreadable)
qed

theorem send_does_not_consult_aborted_witness:
  "sendData ref_platform no_faults 123 1000 ''hello'' (close ref_platform no_faults None (box\<lparr>fsFile := Some ''{''\<rparr>))
      = (Inr (), (close ref_platform no_faults None (box\<lparr>fsFile := Some ''{''\<rparr>))\<lparr>fsFile := Some one_hello\<rparr>)"
proof -
  have h: "one_hello = JSON_stringify ref_platform (mailbox_of [new_entry ref_platform 123 1000 ''hello''])"
    by (simp add: one_hello_def mailbox_of_def)
  have 1: "\<not> mkdir_fails no_faults \<and> \<not> writeFile_fails no_faults \<and> (None :: bool option) \<noteq> Some True
      \<and> \<not> unlink_fails no_faults"
    by (simp add: no_faults_def)
  show ?thesis
    using send_does_not_consult_aborted [of ref_platform no_faults None "box\<lparr>fsFile := Some ''{''\<rparr>" no_faults 123 1000 "''hello''"] 1
    by (simp add: h)
qed

lemma run_append:
  "run P (as @ bs) s =
     (case run P as s of (obs1, s1) \<Rightarrow> (case run P bs s1 of (obs2, s2) \<Rightarrow> (obs1 @ obs2, s2)))"
  by (induction as arbitrary: s) (auto split: prod.splits)

lemma run_sends:
  assumes "fsFile s = None" and "sends \<noteq> []"
    and "\<forall>k \<in> {1..length sends}.
           JSON_parse P (JSON_stringify P (mailbox_of (take k (entries_of P sends))))
             = Normal (mailbox_of (take k (entries_of P sends)))"
  shows "run P (send_each sends) s
     = ([], s\<lparr>fsFile := Some (JSON_stringify P (mailbox_of (entries_of P sends)))\<rparr>)"
  using assms(2,3)
proof (induction sends rule: rev_nonempty_induct)
  case (single x)
  obtain p now d where x: "x = (p, now, d)" by (cases x)
  have "readFile no_faults s = Thrown" using assms(1) by (simp add: readFile_def)
  then show ?case
    by (simp add: x send_each_def entries_of_def sendData_unreadable no_faults_def)
next
  case (snoc x xs)
  obtain p now d where x: "x = (p, now, d)" by (cases x)
  have pre: "\<forall>k \<in> {1..length xs}.
           JSON_parse P (JSON_stringify P (mailbox_of (take k (entries_of P xs))))
             = Normal (mailbox_of (take k (entries_of P xs)))"
  proof
    fix k assume k: "k \<in> {1..length xs}"
    then have "k \<in> {1..length (xs @ [x])}" by simp
    with snoc.prems have "JSON_parse P (JSON_stringify P (mailbox_of (take k (entries_of P (xs @ [x])))))
             = Normal (mailbox_of (take k (entries_of P (xs @ [x]))))" by blast
    moreover have "take k (entries_of P (xs @ [x])) = take k (entries_of P xs)"
      using k by (simp add: entries_of_def)
    ultimately show "JSON_parse P (JSON_stringify P (mailbox_of (take k (entries_of P xs))))
             = Normal (mailbox_of (take k (entries_of P xs)))" by simp
  qed
  from snoc.IH [OF pre]
  have ih: "run P (send_each xs) s
     = ([], s\<lparr>fsFile := Some (JSON_stringify P (mailbox_of (entries_of P xs)))\<rparr>)" .
  have "length xs \<in> {1..length (xs @ [x])}" using snoc.hyps by (cases xs) auto
  with snoc.prems have "JSON_parse P (JSON_stringify P (mailbox_of (take (length xs) (entries_of P (xs @ [x])))))
             = Normal (mailbox_of (take (length xs) (entries_of P (xs @ [x]))))" by blast
  then have rt: "JSON_parse P (JSON_stringify P (mailbox_of (entries_of P xs)))
             = Normal (mailbox_of (entries_of P xs))"
    by (simp add: entries_of_def)
  let ?s1 = "s\<lparr>fsFile := Some (JSON_stringify P (mailbox_of (entries_of P xs)))\<rparr>"
  have rd: "readFile no_faults ?s1 = Normal (JSON_stringify P (mailbox_of (entries_of P xs)))"
    by (simp add: readFile_def no_faults_def)
  have sd: "sendData P no_faults p now d ?s1
     = (Inr (), ?s1\<lparr>fsFile := Some (JSON_stringify P (mailbox_of (entries_of P xs @ [new_entry P p now d])))\<rparr>)"
    by (rule sendData_appends [OF _ _ rd rt]) (simp_all add: no_faults_def)
  have se: "send_each (xs @ [x]) = send_each xs @ [Send no_faults p now d]"
    by (simp add: send_each_def x)
  have en: "entries_of P (xs @ [x]) = entries_of P xs @ [new_entry P p now d]"
    by (simp add: entries_of_def x)
  show ?case
    by (simp add: se en run_append ih sd)
qed

section \<open>Sends followed by an extraction\<close>

lemma validateMessage_depends_on_limits:
  assumes "MAX_DATA_LENGTH s' = MAX_DATA_LENGTH s"
    and "staleMessageLimitMs s' = staleMessageLimitMs s"
  shows "validateMessage P now s' messageObj = validateMessage P now s messageObj"
  unfolding validateMessage_def validateData_def fresh_def assms ..

lemma extract_mailbox:
  assumes "fsFile s = Some c" and "JSON_parse P c = Normal (mailbox_of entries)"
  shows "\<exists>ms. extractMessages P no_faults now s = (Inr ms, s\<lparr>fsFile := None\<rparr>)
           \<and> map Normal ms = map (validateMessage P now s) entries"
proof -
  from validateAll_each [of P now "s\<lparr>fsFile := None\<rparr>" entries]
  obtain ms where v: "validateAll P now (s\<lparr>fsFile := None\<rparr>) entries = Normal ms"
    and m: "map Normal ms = map (validateMessage P now (s\<lparr>fsFile := None\<rparr>)) entries" by blast
  have "validateMessage P now (s\<lparr>fsFile := None\<rparr>) x = validateMessage P now s x" for x
    by (rule validateMessage_depends_on_limits) simp_all
  then have "validateMessage P now (s\<lparr>fsFile := None\<rparr>) = validateMessage P now s"
    by (rule ext)
  with m have "map Normal ms = map (validateMessage P now s) entries" by simp
  moreover have "extractMessages P no_faults now s = (Inr ms, s\<lparr>fsFile := None\<rparr>)"
    using assms v
    by (simp add: extractMessages_def exists_file_def readFile_def unlink_def no_faults_def
        parseAndValidate_def truthy_buffer_def mailbox_of_def)
  ultimately show ?thesis by blast
qed

text \<open>
  Claim C9: N sends in a row (N at least 1), with no extraction in between, give on the
  next extraction exactly one batch of exactly N validated messages, in the order of the
  sends.

  The sends start on an empty mailbox (no file) and meet no file system failure, and the
  platform reads back the JSON text it has written for the mailbox after each send. Then
  the N sends leave one file; the extraction that follows returns N messages, the i-th
  being the validation of the entry the i-th send wrote, and removes the file; and the
  watcher's callback puts exactly this one batch at the end of the queue.
\<close>

theorem consecutive_sends_make_one_batch:
  assumes "fsFile s = None" and "sends \<noteq> []"
    and "\<forall>k \<in> {1..length sends}.
           JSON_parse P (JSON_stringify P (mailbox_of (take k (entries_of P sends))))
             = Normal (mailbox_of (take k (entries_of P sends)))"
  shows "\<exists>s1 ms. run P (send_each sends) s = ([], s1)
           \<and> extractMessages P no_faults now s1 = (Inr ms, s)
           \<and> length ms = length sends
           \<and> map Normal ms = map (validateMessage P now s) (entries_of P sends)
           \<and> onDebounced P no_faults now s1 = s\<lparr>messageQueue := messageQueue s @ [ms]\<rparr>"
proof -
  let ?c = "JSON_stringify P (mailbox_of (entries_of P sends))"
  let ?s1 = "s\<lparr>fsFile := Some ?c\<rparr>"
  have r: "run P (send_each sends) s = ([], ?s1)"
    by (rule run_sends [OF assms])
  have "length sends \<in> {1..length sends}" using assms(2) by (cases sends) auto
  with assms(3) have "JSON_parse P (JSON_stringify P (mailbox_of (take (length sends) (entries_of P sends))))
             = Normal (mailbox_of (take (length sends) (entries_of P sends)))" by blast
  then have rt: "JSON_parse P ?c = Normal (mailbox_of (entries_of P sends))"
    by (simp add: entries_of_def)
  have restored: "?s1\<lparr>fsFile := None\<rparr> = s" using assms(1) by (cases s) simp
  from extract_mailbox [of ?s1 ?c P "entries_of P sends" now] rt restored
  obtain ms where e: "extractMessages P no_faults now ?s1 = (Inr ms, s)"
    and m: "map Normal ms = map (validateMessage P now ?s1) (entries_of P sends)" by auto
  have "validateMessage P now ?s1 x = validateMessage P now s x" for x
    by (rule validateMessage_depends_on_limits) simp_all
  then have "validateMessage P now ?s1 = validateMessage P now s"
    by (rule ext)
  with m have m': "map Normal ms = map (validateMessage P now s) (entries_of P sends)" by simp
  then have "length (map Normal ms :: IpcValidatedMessage completion list) = length (entries_of P sends)" by simp
  then have l: "length ms = length sends" by (simp add: entries_of_def)
  with assms(2) have "length ms > 0" by simp
  with e have "onDebounced P no_faults now ?s1 = s\<lparr>messageQueue := messageQueue s @ [ms]\<rparr>"
    by (simp add: onDebounced_def)
  with r e l m' show ?thesis by blast
qed

theorem consecutive_sends_make_one_batch_witness:
  "\<exists>s1 ms. run ref_platform (send_each two_sends) box = ([], s1)
           \<and> extractMessages ref_platform no_faults 1050 s1 = (Inr ms, box)
           \<and> length ms = length two_sends
           \<and> map Normal ms = map (validateMessage ref_platform 1050 box) (entries_of ref_platform two_sends)
           \<and> onDebounced ref_platform no_faults 1050 s1 = box\<lparr>messageQueue := messageQueue box @ [ms]\<rparr>"
proof -
  have 1: "fsFile box = None" by (simp add: box_def new_FileIPC_def)
  have 2: "two_sends \<noteq> []" by (simp add: two_sends_def)
  have i: "{1..length two_sends} = {1, 2}" by (auto simp: two_sends_def)
  have a: "JSON_parse ref_platform (JSON_stringify ref_platform (mailbox_of (take 1 (entries_of ref_platform two_sends))))
             = Normal (mailbox_of (take 1 (entries_of ref_platform two_sends)))" by code_simp
  have b: "JSON_parse ref_platform (JSON_stringify ref_platform (mailbox_of (take 2 (entries_of ref_platform two_sends))))
             = Normal (mailbox_of (take 2 (entries_of ref_platform two_sends)))" by code_simp
  have 3: "\<forall>k \<in> {1..length two_sends}.
           JSON_parse ref_platform (JSON_stringify ref_platform (mailbox_of (take k (entries_of ref_platform two_sends))))
             = Normal (mailbox_of (take k (entries_of ref_platform two_sends)))"
    unfolding i using a b by blast
  show ?thesis
    by (rule consecutive_sends_make_one_batch [OF 1 2 3])
qed

lemma two_sends_batch:
  "map (validateMessage ref_platform 1050 box) (entries_of ref_platform two_sends)
     = [Normal \<lparr> pid = Some (Num 123), sent = Some (Date (Num 1000)), data = Some ''hello'', errors = [] \<rparr>,
        Normal \<lparr> pid = Some (Num 124), sent = Some (Date (Num 1010)), data = Some ''world'', errors = [] \<rparr>]"
  by code_simp

section \<open>The queue\<close>

lemma extract_keeps_queue:
  "extractMessages P F now s = (r, s') \<Longrightarrow> messageQueue s' = messageQueue s"
  by (drule extract_result_cases) auto

lemma onDebounced_queue:
  "[] \<notin> set (messageQueue s) \<Longrightarrow> [] \<notin> set (messageQueue (onDebounced P F now s))"
  by (auto simp: onDebounced_def split: prod.splits sum.splits dest: extract_keeps_queue)

lemma startWatching_queue:
  "[] \<notin> set (messageQueue s) \<Longrightarrow> [] \<notin> set (messageQueue (snd (startWatching P F now s)))"
  by (auto simp: startWatching_def Let_def split: prod.splits sum.splits completion.splits
      dest: extract_keeps_queue)

lemma fire_due_queue:
  "[] \<notin> set (messageQueue s) \<Longrightarrow> fire_due P F now ds s = (ts, ds', s')
     \<Longrightarrow> [] \<notin> set (messageQueue s')"
proof (induction ds arbitrary: s ts ds')
  case Nil
  then show ?case by simp
next
  case (Cons d ds)
  show ?case
  proof (cases "timeout d")
    case None
    with Cons show ?thesis by simp
  next
    case (Some t)
    show ?thesis
    proof (cases "t \<le> now")
      case True
      with Some Cons.prems(2) obtain ts0 ds0
        where "fire_due P F now ds (onDebounced P F t s) = (ts0, ds0, s')"
        by (auto split: prod.splits)
      with Cons.IH [OF onDebounced_queue [OF Cons.prems(1)]] show ?thesis by blast
    next
      case False
      with Some Cons.prems(2) obtain ts0 ds0
        where "fire_due P F now ds s = (ts0, ds0, s')"
        by (auto split: prod.splits)
      with Cons.IH [OF Cons.prems(1)] show ?thesis by blast
    qed
  qed
qed

lemma sendData_queue: "messageQueue (snd (sendData P F p now d s)) = messageQueue s"
  by (simp add: sendData_def appendMessage_def writeFile_def Let_def
      split: completion.splits option.splits prod.splits)

lemma close_queue: "messageQueue (close P F leaveFile s) = messageQueue s"
  by (simp add: close_def unlink_def Let_def split: option.splits)

lemma onEvent_queue: "messageQueue (onEvent P event now s) = messageQueue s"
  by (simp add: onEvent_def)

lemma step_keeps_batches_nonempty:
  assumes "[] \<notin> set (messageQueue s)" and "step P a s = (obs, s')"
  shows "[] \<notin> set (messageQueue s') \<and> Batch [] \<notin> set obs"
proof (cases a)
  case (StartWatching F now)
  with assms startWatching_queue [OF assms(1), of P F now] show ?thesis
    by (auto split: if_splits)
next
  case (FsEvent event now)
  with assms show ?thesis by (auto simp: onEvent_queue split: if_splits)
next
  case (Elapse F now)
  with assms show ?thesis
    by (auto simp: elapse_def split: prod.splits dest: fire_due_queue)
next
  case Receive
  with assms show ?thesis
    by (auto simp: receiveData_def split: if_splits list.splits)
next
  case (Send F p now d)
  with assms show ?thesis by (auto simp: sendData_queue)
next
  case (Close F leaveFile)
  with assms show ?thesis by (auto simp: close_queue)
next
  case (OtherProcess c)
  with assms show ?thesis by auto
qed

lemma run_keeps_batches_nonempty:
  "[] \<notin> set (messageQueue s) \<Longrightarrow> run P acts s = (obs, s')
     \<Longrightarrow> [] \<notin> set (messageQueue s') \<and> Batch [] \<notin> set obs"
proof (induction acts arbitrary: s obs s')
  case Nil
  then show ?case by simp
next
  case (Cons a acts)
  obtain obs1 s1 where 1: "step P a s = (obs1, s1)" by force
  obtain obs2 s2 where 2: "run P acts s1 = (obs2, s2)" by force
  from step_keeps_batches_nonempty [OF Cons.prems(1) 1]
  have q: "[] \<notin> set (messageQueue s1)" and o: "Batch [] \<notin> set obs1" by simp_all
  from Cons.IH [OF q 2] Cons.prems(2) 1 2 o show ?case by auto
qed

text \<open>
  Claim C10: every batch that reaches the queue, and so every batch that the receive
  sequence yields, has at least one message. Whatever happens to a handle after its
  construction (the watcher starting, events, time-outs, sends, other processes writing
  the file, close, the consumer's turns), the queue holds no empty batch and no empty
  batch is yielded.
\<close>

theorem no_empty_batch_is_queued_or_yielded:
  assumes "run P acts (new_FileIPC P path staleArg debounceArg disk) = (obs, s')"
  shows "[] \<notin> set (messageQueue s') \<and> Batch [] \<notin> set obs"
  by (rule run_keeps_batches_nonempty [OF _ assms]) (simp add: new_FileIPC_def)

lemma a_day_run:
  "run ref_platform a_day (new_FileIPC ref_platform ''/tmp/box'' None None None)
     = ([Extraction 1050,
         Batch [\<lparr> pid = Some (Num 123), sent = Some (Date (Num 1000)), data = Some ''hello'', errors = [] \<rparr>],
         Extraction 2100],
        box\<lparr>watcher := Some True\<rparr>)"
  by code_simp

theorem no_empty_batch_is_queued_or_yielded_witness:
  "run ref_platform a_day (new_FileIPC ref_platform ''/tmp/box'' None None None)
     = ([Extraction 1050,
         Batch [\<lparr> pid = Some (Num 123), sent = Some (Date (Num 1000)), data = Some ''hello'', errors = [] \<rparr>],
         Extraction 2100],
        box\<lparr>watcher := Some True\<rparr>)
   \<and> [] \<notin> set (messageQueue (box\<lparr>watcher := Some True\<rparr>))
   \<and> Batch [] \<notin> set [Extraction 1050,
         Batch [\<lparr> pid = Some (Num 123), sent = Some (Date (Num 1000)), data = Some ''hello'', errors = [] \<rparr>],
         Extraction 2100]"
  using no_empty_batch_is_queued_or_yielded [OF a_day_run] a_day_run by simp

section \<open>Debouncing\<close>

lemma fire_due_all_due:
  "\<forall>t \<in> set ts. t + w \<le> now \<Longrightarrow>
     fst (fire_due P F now (map (\<lambda>t. call_debounced t w debounce) ts) s) = map (\<lambda>t. t + w) ts"
proof (induction ts arbitrary: s)
  case Nil
  show ?case by simp
next
  case (Cons t ts)
  then have "fst (fire_due P F now (map (\<lambda>t. call_debounced t w debounce) ts) (onDebounced P F (t + w) s))
      = map (\<lambda>t. t + w) ts" by simp
  with Cons.prems show ?case
    by (auto simp: call_debounced_def debounce_def split: prod.splits)
qed

lemma events_are_scheduled_one_by_one:
  assumes "kind event = ''modify''"
    and "path_join P (dirPath s) (fileName s) \<in> set (paths event)"
    and "watcher s = Some True" and "\<not> aborted s"
  shows "run P (map (FsEvent event) ts) s
     = ([], s\<lparr>debounced_fns := debounced_fns s
                @ map (\<lambda>t. call_debounced t (debounceTimeMs s) debounce) ts\<rparr>)"
  using assms
proof (induction ts arbitrary: s)
  case Nil
  show ?case by simp
next
  case (Cons t ts)
  let ?s1 = "s\<lparr>debounced_fns := debounced_fns s @ [call_debounced t (debounceTimeMs s) debounce]\<rparr>"
  have 1: "step P (FsEvent event t) s = ([], ?s1)"
    using Cons.prems by (simp add: onEvent_def)
  have "run P (map (FsEvent event) ts) ?s1
     = ([], ?s1\<lparr>debounced_fns := debounced_fns ?s1
                @ map (\<lambda>t. call_debounced t (debounceTimeMs ?s1) debounce) ts\<rparr>)"
    by (rule Cons.IH) (use Cons.prems in simp_all)
  with 1 show ?case by simp
qed

lemma every_event_is_extracted:
  assumes "kind event = ''modify''"
    and "path_join P (dirPath s) (fileName s) \<in> set (paths event)"
    and "watcher s = Some True" and "\<not> aborted s" and "debounced_fns s = []"
    and "\<forall>t \<in> set ts. t + debounceTimeMs s \<le> now"
  shows "fst (run P (map (FsEvent event) ts @ [Elapse F now]) s)
     = map (\<lambda>t. Extraction (t + debounceTimeMs s)) ts"
proof -
  let ?ds = "map (\<lambda>t. call_debounced t (debounceTimeMs s) debounce) ts"
  have "fst (fire_due P F now ?ds (s\<lparr>debounced_fns := ?ds\<rparr>)) = map (\<lambda>t. t + debounceTimeMs s) ts"
    by (rule fire_due_all_due [OF assms(6)])
  then show ?thesis
    by (auto simp: run_append events_are_scheduled_one_by_one [OF assms(1-4)] assms(5) elapse_def
        split: prod.splits)
qed

text \<open>
  Claim C1: a burst of modification events on the mailbox file, each within
  debounceTimeMs of the one before, leads to exactly one extraction, debounceTimeMs
  after the last event of the burst, because each event resets the pending timer.

  The code does not do this, against the comment on startWatching (the call "doesn't get
  called more than once in a short amount of time"). The loop calls
  \<^verbatim>\<open>debounce(...)\<close> anew for every event and calls the function it gets once, so
  every event has a time-out of its own and none is ever reset
  (\<open>every_event_is_extracted\<close>). Two modifications 10 ms apart, with the default
  quiet period of 100 ms, lead to two extractions, 100 ms after each of them (the
  extraction at 0 is the one startWatching makes first).
\<close>

theorem two_events_two_extractions:
  "fst (run ref_platform
          [StartWatching no_faults 0, FsEvent modify_box 1000, FsEvent modify_box 1010,
           Elapse no_faults 5000] box)
     = [Extraction 0, Extraction 1100, Extraction 1110]"
  by code_simp

end
